theory Spec2Isabelle
  imports Complex_Main
begin

section \<open>Timers\<close>

text \<open>
  Modelled from the spec: \<^verbatim>\<open>struct timer\<close>, declared by the RTC driver, which is not
  among the sources. sensor\_control.c reads and clears its field \<^verbatim>\<open>active\<close>; the spec
  gives a timer the fields \<^verbatim>\<open>active\<close>, \<^verbatim>\<open>start_time\<close> and \<^verbatim>\<open>duration\<close>.
\<close>

record timer =
  active :: bool
  start_time :: real
  duration :: real

text \<open>
  Modelled from the spec: the arming primitive of the timer. sensor\_control.c hands the
  RTC device \<^verbatim>\<open>dev\<close>, the timer and a duration to \<^verbatim>\<open>enable_timer\<close>, a function of the
  RTC driver; in the functions below \<^verbatim>\<open>enable_timer\<close> and \<^verbatim>\<open>dev\<close> are arguments, so
  that what is proved of them holds for every driver. Where a concrete driver is needed
  it is \<open>arm\<close>, of which the spec says: "records the current time and sets active =
  true; overwrites any prior arming (no queuing)", with "no error conditions (durations
  are caller-validated non-negative)". Its device argument is the current time.
\<close>

definition arm :: "real \<Rightarrow> timer \<Rightarrow> real \<Rightarrow> timer" where
  "arm now t d = t\<lparr>active := True, start_time := now, duration := d\<rparr>"


section \<open>Sensor control (sensor\_control.c)\<close>

text \<open>
  \<^verbatim>\<open>struct sensor_control\<close> is declared in sensor\_control.h, which is not among the
  sources; the record has exactly the fields that sensor\_control.c reads and writes.
  A \<^verbatim>\<open>float\<close> is a \<^typ>\<open>real\<close>: the code only compares readings with
  \<open>target \<plusminus> margin\<close>, multiplies the dose time by the dose percentage and subtracts
  the debounce time from the wait time; the numbers of the examples (3, 6, 8, 10, 30)
  are floats and their sums and differences are exact. A reading for which both
  comparisons are false, as they are for a NaN, takes the in-range branch. The name is
  copied by \<^verbatim>\<open>strcpy\<close>; the length of its buffer is not modelled.
  \<^verbatim>\<open>sensor_checks\<close> is the array of flags, a list;
  \<^verbatim>\<open>check_index\<close> is the debounce counter. The macros \<^verbatim>\<open>NUM_CHECKS\<close> and
  \<^verbatim>\<open>SENSOR_MEASUREMENT_PERIOD\<close> (milliseconds) are not among the sources either; they
  are the arguments \<open>NUM_CHECKS\<close> and \<open>PERIOD\<close> of the functions that use them. The
  global \<^verbatim>\<open>is_day\<close> of rtc.h is the argument \<open>is_day\<close>. Diagnostic log calls are left
  out.
\<close>

record sensor_control =
  name :: string
  is_control_enabled :: bool
  is_control_active :: bool
  is_doser :: bool
  target_value :: real
  margin_error :: real
  night_target_value :: real
  is_day_night_active :: bool
  dose_time :: real
  wait_time :: real
  dose_percentage :: real
  sensor_checks :: "bool list"
  check_index :: nat
  dose_timer :: timer
  wait_timer :: timer

text \<open>
  \<^verbatim>\<open>for(int i = 0; i < NUM_CHECKS; i++) sensor_checks[i] = false; check_index = 0;\<close>
  The array has \<^verbatim>\<open>NUM_CHECKS\<close> cells in the C program, so every index written is in
  range; on a list of another length \<open>xs[i := False]\<close> leaves the list as it is beyond
  its end.
\<close>

definition control_reset_checks :: "nat \<Rightarrow> sensor_control \<Rightarrow> sensor_control" where
  "control_reset_checks NUM_CHECKS c =
     c\<lparr>sensor_checks := fold (\<lambda>i xs. xs[i := False]) [0..<NUM_CHECKS] (sensor_checks c),
       check_index := 0\<rparr>"

text \<open>
  The write \<^verbatim>\<open>sensor_checks[check_index++] = true\<close> is inside the array as long as
  \<open>check_index < NUM_CHECKS\<close>, which the test before it and the invariant
  \<open>check_index \<le> NUM_CHECKS\<close> (see \<open>control_wf\<close>) give.
\<close>

definition control_add_check :: "nat \<Rightarrow> sensor_control \<Rightarrow> sensor_control \<times> bool" where
  "control_add_check NUM_CHECKS c =
     (if check_index c = NUM_CHECKS then (control_reset_checks NUM_CHECKS c, True)
      else (c\<lparr>sensor_checks := (sensor_checks c)[check_index c := True],
               check_index := check_index c + 1\<rparr>, False))"

definition control_get_target_value :: "bool \<Rightarrow> sensor_control \<Rightarrow> real" where
  "control_get_target_value is_day c =
     (if \<not> is_day \<and> is_day_night_active c then night_target_value c else target_value c)"

definition init_sensor_control ::
  "nat \<Rightarrow> sensor_control \<Rightarrow> string \<Rightarrow> bool \<Rightarrow> real \<Rightarrow> real \<Rightarrow> real \<Rightarrow> bool \<Rightarrow> sensor_control" where
  "init_sensor_control NUM_CHECKS c name_in is_enabled_in target_value_in margin_error_in
       night_target_value_in is_day_night_in =
     control_reset_checks NUM_CHECKS
       (c\<lparr>name := name_in,
          is_control_enabled := is_enabled_in,
          is_control_active := False,
          is_doser := False,
          target_value := target_value_in,
          margin_error := margin_error_in,
          night_target_value := night_target_value_in,
          is_day_night_active := is_day_night_in\<rparr>)"

definition init_doser_control :: "sensor_control \<Rightarrow> real \<Rightarrow> real \<Rightarrow> sensor_control" where
  "init_doser_control c dose_time_in wait_time_in =
     c\<lparr>is_doser := True, dose_time := dose_time_in, wait_time := wait_time_in,
       dose_percentage := 1\<rparr>"

definition control_get_enabled :: "sensor_control \<Rightarrow> bool" where
  "control_get_enabled c = is_control_enabled c"

definition control_get_active :: "sensor_control \<Rightarrow> bool" where
  "control_get_active c = is_control_active c"

definition control_enable :: "sensor_control \<Rightarrow> sensor_control" where
  "control_enable c = c\<lparr>is_control_enabled := True\<rparr>"

definition control_disable :: "nat \<Rightarrow> sensor_control \<Rightarrow> sensor_control" where
  "control_disable NUM_CHECKS c =
     control_reset_checks NUM_CHECKS
       (c\<lparr>is_control_enabled := False,
          is_control_active := False,
          dose_timer := (dose_timer c)\<lparr>active := False\<rparr>,
          wait_timer := (wait_timer c)\<lparr>active := False\<rparr>\<rparr>)"

definition control_is_under_target :: "bool \<Rightarrow> sensor_control \<Rightarrow> real \<Rightarrow> bool" where
  "control_is_under_target is_day c current_value \<longleftrightarrow>
     current_value < control_get_target_value is_day c - margin_error c"

definition control_is_over_target :: "bool \<Rightarrow> sensor_control \<Rightarrow> real \<Rightarrow> bool" where
  "control_is_over_target is_day c current_value \<longleftrightarrow>
     current_value > control_get_target_value is_day c + margin_error c"

text \<open>
  The last two statements of \<^verbatim>\<open>control_check_sensor\<close>:
  \<^verbatim>\<open>if(!is_doser) is_control_active = false; return 0;\<close>
\<close>

definition check_no_action :: "sensor_control \<Rightarrow> sensor_control \<times> int" where
  "check_no_action c = ((if \<not> is_doser c then c\<lparr>is_control_active := False\<rparr> else c), 0)"

text \<open>
  The result is the control after the call and the value returned: \<open>0\<close> (no action),
  \<open>-1\<close> (the reading is under the target band) or \<open>1\<close> (it is over). The triggering
  branch returns from inside the \<^verbatim>\<open>if\<close>, before the last two statements.
\<close>

definition control_check_sensor ::
  "nat \<Rightarrow> bool \<Rightarrow> sensor_control \<Rightarrow> real \<Rightarrow> sensor_control \<times> int" where
  "control_check_sensor NUM_CHECKS is_day c current_value =
     (if \<not> is_control_enabled c then (c, 0)
      else if is_control_active c \<and> is_doser c \<and>
              (active (dose_timer c) \<or> active (wait_timer c)) then (c, 0)
      else
        let under_target = control_is_under_target is_day c current_value;
            over_target = control_is_over_target is_day c current_value
        in if under_target \<or> over_target then
             (case control_add_check NUM_CHECKS c of
                (c1, True) \<Rightarrow> (c1\<lparr>is_control_active := True\<rparr>, if under_target then - 1 else 1)
              | (c1, False) \<Rightarrow> check_no_action c1)
           else if check_index c > 0 then
             check_no_action
               (control_reset_checks NUM_CHECKS
                  (if is_doser c then c\<lparr>is_control_active := False\<rparr> else c))
           else check_no_action c)"

definition control_get_dose_time :: "sensor_control \<Rightarrow> real" where
  "control_get_dose_time c = dose_time c * dose_percentage c"

definition control_start_dose_timer ::
  "('dev \<Rightarrow> timer \<Rightarrow> real \<Rightarrow> timer) \<Rightarrow> 'dev \<Rightarrow> sensor_control \<Rightarrow> sensor_control" where
  "control_start_dose_timer enable_timer dev c =
     c\<lparr>dose_timer := enable_timer dev (dose_timer c) (control_get_dose_time c)\<rparr>"

text \<open>
  \<^verbatim>\<open>wait_time - NUM_CHECKS * (SENSOR_MEASUREMENT_PERIOD / 1000)\<close>: the division is the
  integer division of the period in milliseconds, the product an integer, converted to
  \<^verbatim>\<open>float\<close> for the subtraction. The difference is the argument of \<^verbatim>\<open>enable_timer\<close> as
  it stands.
\<close>

definition control_start_wait_timer ::
  "('dev \<Rightarrow> timer \<Rightarrow> real \<Rightarrow> timer) \<Rightarrow> 'dev \<Rightarrow> nat \<Rightarrow> nat \<Rightarrow> sensor_control \<Rightarrow> sensor_control" where
  "control_start_wait_timer enable_timer dev NUM_CHECKS PERIOD c =
     c\<lparr>wait_timer := enable_timer dev (wait_timer c)
                       (wait_time c - real (NUM_CHECKS * (PERIOD div 1000)))\<rparr>"

definition control_set_dose_percentage :: "sensor_control \<Rightarrow> real \<Rightarrow> sensor_control" where
  "control_set_dose_percentage c v = c\<lparr>dose_percentage := v\<rparr>"


subsection \<open>Sequences of calls\<close>

text \<open>
  The sampling task calls \<^verbatim>\<open>control_check_sensor\<close> once per reading. A sequence of
  calls is a list of pairs: the value of \<^verbatim>\<open>is_day\<close> at the call and the reading. The
  result is the control after the last call and the values returned, in order.
\<close>

fun check_sequence ::
  "nat \<Rightarrow> sensor_control \<Rightarrow> (bool \<times> real) list \<Rightarrow> sensor_control \<times> int list" where
  "check_sequence NUM_CHECKS c [] = (c, [])"
| "check_sequence NUM_CHECKS c ((is_day, v) # rs) =
     (case control_check_sensor NUM_CHECKS is_day c v of
        (c1, r) \<Rightarrow> (case check_sequence NUM_CHECKS c1 rs of (c2, out) \<Rightarrow> (c2, r # out)))"

text \<open>A reading outside the band around the target selected by \<open>is_day\<close>.\<close>

definition out_of_range :: "sensor_control \<Rightarrow> bool \<times> real \<Rightarrow> bool" where
  "out_of_range c s \<longleftrightarrow>
     control_is_under_target (fst s) c (snd s) \<or> control_is_over_target (fst s) c (snd s)"

text \<open>The first test pair of \<^verbatim>\<open>control_check_sensor\<close> after the enabled test: a dose or
  a cooldown is in flight.\<close>

definition in_dose_cycle :: "sensor_control \<Rightarrow> bool" where
  "in_dose_cycle c \<longleftrightarrow>
     is_control_active c \<and> is_doser c \<and> (active (dose_timer c) \<or> active (wait_timer c))"

text \<open>The array has \<open>NUM_CHECKS\<close> cells and the counter never passes its end.\<close>

definition control_wf :: "nat \<Rightarrow> sensor_control \<Rightarrow> bool" where
  "control_wf NUM_CHECKS c \<longleftrightarrow>
     length (sensor_checks c) = NUM_CHECKS \<and> check_index c \<le> NUM_CHECKS"

text \<open>
  The calls the other modules make on a control once it is initialised, for statements
  about every sequence of them.
\<close>

datatype 'dev control_op =
    Enable
  | Disable
  | Check bool real
  | StartDose 'dev
  | StartWait 'dev
  | SetDosePercentage real

fun apply_control_op ::
  "('dev \<Rightarrow> timer \<Rightarrow> real \<Rightarrow> timer) \<Rightarrow> nat \<Rightarrow> nat \<Rightarrow> sensor_control \<Rightarrow> 'dev control_op
     \<Rightarrow> sensor_control" where
  "apply_control_op enable_timer NUM_CHECKS PERIOD c Enable = control_enable c"
| "apply_control_op enable_timer NUM_CHECKS PERIOD c Disable = control_disable NUM_CHECKS c"
| "apply_control_op enable_timer NUM_CHECKS PERIOD c (Check is_day v) =
     fst (control_check_sensor NUM_CHECKS is_day c v)"
| "apply_control_op enable_timer NUM_CHECKS PERIOD c (StartDose dev) =
     control_start_dose_timer enable_timer dev c"
| "apply_control_op enable_timer NUM_CHECKS PERIOD c (StartWait dev) =
     control_start_wait_timer enable_timer dev NUM_CHECKS PERIOD c"
| "apply_control_op enable_timer NUM_CHECKS PERIOD c (SetDosePercentage p) =
     control_set_dose_percentage c p"

fun is_set_dose_percentage :: "'dev control_op \<Rightarrow> bool" where
  "is_set_dose_percentage (SetDosePercentage p) = True"
| "is_set_dose_percentage _ = False"


subsection \<open>Example controls\<close>

definition idle_timer :: timer where
  "idle_timer = \<lparr>active = False, start_time = 0, duration = 0\<rparr>"

text \<open>A water temperature control (not a doser): target 6, margin 1, enabled.\<close>

definition water_temp_control :: sensor_control where
  "water_temp_control =
     \<lparr>name = ''WATER_TEMP'', is_control_enabled = True, is_control_active = False,
      is_doser = False, target_value = 6, margin_error = 1, night_target_value = 6,
      is_day_night_active = False, dose_time = 0, wait_time = 0, dose_percentage = 0,
      sensor_checks = [False, False, False, False, False], check_index = 0,
      dose_timer = idle_timer, wait_timer = idle_timer\<rparr>"

text \<open>A pH control (a doser): the same band, dose time 10 s, wait time 30 s.\<close>

definition ph_control :: sensor_control where
  "ph_control = init_doser_control (water_temp_control\<lparr>name := ''PH''\<rparr>) 10 30"

text \<open>The pH control in the middle of a dose, its timer armed at time 100.\<close>

definition ph_control_dosing :: sensor_control where
  "ph_control_dosing =
     control_start_dose_timer arm 100 (ph_control\<lparr>is_control_active := True\<rparr>)"


section \<open>Grow manager (grow\_manager.c)\<close>

text \<open>
  The grow manager calls the scheduler (\<^verbatim>\<open>vTaskSuspend\<close>, \<^verbatim>\<open>vTaskResume\<close>,
  \<^verbatim>\<open>vTaskDelay\<close>), the NVS store and the pH and EC drivers, none of which is among the
  sources. Each such call is an event, appended to a trace in the order the calls are
  made; the delay is recorded in milliseconds and a stored \<^verbatim>\<open>uint8_t\<close> as a number.
  Diagnostic log calls are left out.
\<close>

datatype task =
    timer_alarm_task
  | publish_task
  | sensor_control_task
  | water_temp_sensor_task
  | ec_sensor_task
  | ph_sensor_task
  | sync_task

datatype nvs_key = GROW_ACTIVE_KEY | SETTINGS_RECEIVED_KEY

datatype event =
    NvsGetHandle
  | NvsAddUint8 nvs_key nat
  | NvsCommitData
  | TaskSuspend task
  | TaskResume task
  | TaskDelay nat
  | HibernatePh
  | HibernateEc

text \<open>
  Modelled from the spec: the flags \<open>is_ph_activated\<close> and \<open>is_ec_activated\<close>. The code
  reads them with \<^verbatim>\<open>get_is_ph_activated()\<close>, \<^verbatim>\<open>get_is_ec_activated()\<close> and writes them
  with \<^verbatim>\<open>set_is_ph_activated(false)\<close>, \<^verbatim>\<open>set_is_ec_activated(false)\<close>, functions of the
  probe drivers; the spec calls them the actuator's "activated" flag, queried and
  cleared by \<^verbatim>\<open>stop_grow_cycle\<close>. \<^verbatim>\<open>is_settings_received\<close> and \<^verbatim>\<open>is_grow_active\<close> are
  the globals of grow\_manager.c.
\<close>

record grow_manager =
  is_settings_received :: bool
  is_grow_active :: bool
  is_ph_activated :: bool
  is_ec_activated :: bool
  trace :: "event list"

definition emit :: "event list \<Rightarrow> grow_manager \<Rightarrow> grow_manager" where
  "emit es s = s\<lparr>trace := trace s @ es\<rparr>"

definition push_grow_status :: "grow_manager \<Rightarrow> grow_manager" where
  "push_grow_status s =
     emit [NvsGetHandle, NvsAddUint8 GROW_ACTIVE_KEY (if is_grow_active s then 1 else 0),
           NvsCommitData] s"

definition push_grow_settings_status :: "grow_manager \<Rightarrow> grow_manager" where
  "push_grow_settings_status s =
     emit [NvsGetHandle,
           NvsAddUint8 SETTINGS_RECEIVED_KEY (if is_settings_received s then 1 else 0),
           NvsCommitData] s"

definition suspend_tasks :: "grow_manager \<Rightarrow> grow_manager" where
  "suspend_tasks s =
     emit [TaskSuspend timer_alarm_task, TaskSuspend publish_task,
           TaskSuspend sensor_control_task, TaskSuspend water_temp_sensor_task,
           TaskSuspend ec_sensor_task, TaskSuspend ph_sensor_task, TaskSuspend sync_task] s"

definition resume_tasks :: "grow_manager \<Rightarrow> grow_manager" where
  "resume_tasks s =
     emit [TaskResume timer_alarm_task, TaskResume publish_task,
           TaskResume sensor_control_task, TaskResume water_temp_sensor_task,
           TaskResume ec_sensor_task, TaskResume ph_sensor_task, TaskResume sync_task] s"

definition start_grow_cycle :: "grow_manager \<Rightarrow> grow_manager" where
  "start_grow_cycle s =
     (if \<not> is_settings_received s then s
      else resume_tasks (push_grow_status (s\<lparr>is_grow_active := True\<rparr>)))"

definition stop_grow_cycle :: "grow_manager \<Rightarrow> grow_manager" where
  "stop_grow_cycle s =
     (let s1 = push_grow_status (s\<lparr>is_grow_active := False\<rparr>);
          s2 = suspend_tasks s1;
          s3 = emit [TaskDelay 4000] s2;
          s4 = (if is_ph_activated s3 then (emit [HibernatePh] s3)\<lparr>is_ph_activated := False\<rparr>
                else s3);
          s5 = (if is_ec_activated s4 then (emit [HibernateEc] s4)\<lparr>is_ec_activated := False\<rparr>
                else s4)
      in s5)"

definition settings_received :: "grow_manager \<Rightarrow> grow_manager" where
  "settings_received s = push_grow_settings_status (s\<lparr>is_settings_received := True\<rparr>)"

definition get_is_settings_received :: "grow_manager \<Rightarrow> bool" where
  "get_is_settings_received s = is_settings_received s"

definition get_is_grow_active :: "grow_manager \<Rightarrow> bool" where
  "get_is_grow_active s = is_grow_active s"

fun is_suspend :: "event \<Rightarrow> bool" where
  "is_suspend (TaskSuspend t) = True"
| "is_suspend _ = False"

fun is_hibernate :: "event \<Rightarrow> bool" where
  "is_hibernate HibernatePh = True"
| "is_hibernate HibernateEc = True"
| "is_hibernate _ = False"

text \<open>The events a call adds to the trace.\<close>

definition new_events :: "grow_manager \<Rightarrow> grow_manager \<Rightarrow> event list" where
  "new_events s s' = drop (length (trace s)) (trace s')"

text \<open>
  The calls \<^verbatim>\<open>stop_grow_cycle\<close> makes whatever the state: the NVS write of
  \<^verbatim>\<open>push_grow_status\<close>, the seven suspensions of \<^verbatim>\<open>suspend_tasks\<close>, the delay.
\<close>

definition stop_calls :: "event list" where
  "stop_calls =
     [NvsGetHandle, NvsAddUint8 GROW_ACTIVE_KEY 0, NvsCommitData,
      TaskSuspend timer_alarm_task, TaskSuspend publish_task,
      TaskSuspend sensor_control_task, TaskSuspend water_temp_sensor_task,
      TaskSuspend ec_sensor_task, TaskSuspend ph_sensor_task, TaskSuspend sync_task,
      TaskDelay 4000]"

text \<open>A manager after boot with no settings, and one running with the pH probe awake.\<close>

definition fresh_manager :: grow_manager where
  "fresh_manager =
     \<lparr>is_settings_received = False, is_grow_active = False, is_ph_activated = False,
      is_ec_activated = False, trace = []\<rparr>"

definition running_manager :: grow_manager where
  "running_manager =
     \<lparr>is_settings_received = True, is_grow_active = True, is_ph_activated = True,
      is_ec_activated = False, trace = []\<rparr>"

section \<open>Properties of the sensor control\<close>

subsection \<open>Frame lemmas\<close>

lemma reset_cells:
  "fold (\<lambda>i xs. xs[i := False]) [0..<n] xs = replicate (min n (length xs)) False @ drop n xs"
proof (induction n)
  case 0
  show ?case by simp
next
  case (Suc n)
  show ?case
  proof (cases "n < length xs")
    case True
    then have "(replicate n False @ drop n xs)[n := False] = replicate n False @ (drop n xs)[0 := False]"
      by (simp add: list_update_append)
    also have "(drop n xs)[0 := False] = False # drop (Suc n) xs"
      using True by (cases "drop n xs") (auto simp: drop_Suc drop_tl)
    finally show ?thesis
      using True Suc by (simp add: min_def replicate_append_same)
  next
    case False
    then have "length (replicate (min n (length xs)) False @ drop n xs) \<le> n"
      by simp
    then have "(replicate (min n (length xs)) False @ drop n xs)[n := False] =
               replicate (min n (length xs)) False @ drop n xs"
      by (rule list_update_beyond)
    then show ?thesis using False Suc by (simp add: min_def)
  qed
qed

lemma reset_cells_full:
  "length xs = n \<Longrightarrow> fold (\<lambda>i xs. xs[i := False]) [0..<n] xs = replicate n False"
  by (simp add: reset_cells)

lemma reset_cells_idem:
  "fold (\<lambda>i xs. xs[i := False]) [0..<n] (fold (\<lambda>i xs. xs[i := False]) [0..<n] xs) =
   fold (\<lambda>i xs. xs[i := False]) [0..<n] xs"
  by (simp add: reset_cells min_def)

lemma control_reset_checks_fields [simp]:
  "check_index (control_reset_checks N c) = 0"
  "is_control_enabled (control_reset_checks N c) = is_control_enabled c"
  "is_control_active (control_reset_checks N c) = is_control_active c"
  "is_doser (control_reset_checks N c) = is_doser c"
  "dose_timer (control_reset_checks N c) = dose_timer c"
  "wait_timer (control_reset_checks N c) = wait_timer c"
  "dose_percentage (control_reset_checks N c) = dose_percentage c"
  "dose_time (control_reset_checks N c) = dose_time c"
  "wait_time (control_reset_checks N c) = wait_time c"
  "target_value (control_reset_checks N c) = target_value c"
  "margin_error (control_reset_checks N c) = margin_error c"
  "night_target_value (control_reset_checks N c) = night_target_value c"
  "is_day_night_active (control_reset_checks N c) = is_day_night_active c"
  "name (control_reset_checks N c) = name c"
  by (simp_all add: control_reset_checks_def)

lemma control_reset_checks_cells:
  "length (sensor_checks c) = N \<Longrightarrow> sensor_checks (control_reset_checks N c) = replicate N False"
  by (simp add: control_reset_checks_def reset_cells_full)

lemma control_reset_checks_length [simp]:
  "length (sensor_checks (control_reset_checks N c)) = length (sensor_checks c)"
  by (simp add: control_reset_checks_def reset_cells)

lemma control_disable_idem: "control_disable N (control_disable N c) = control_disable N c"
  by (simp add: control_disable_def control_reset_checks_def reset_cells_idem)

lemma check_no_action_fields [simp]:
  "snd (check_no_action c) = 0"
  "check_index (fst (check_no_action c)) = check_index c"
  "is_control_enabled (fst (check_no_action c)) = is_control_enabled c"
  "is_doser (fst (check_no_action c)) = is_doser c"
  "dose_timer (fst (check_no_action c)) = dose_timer c"
  "wait_timer (fst (check_no_action c)) = wait_timer c"
  "dose_percentage (fst (check_no_action c)) = dose_percentage c"
  "dose_time (fst (check_no_action c)) = dose_time c"
  "wait_time (fst (check_no_action c)) = wait_time c"
  "target_value (fst (check_no_action c)) = target_value c"
  "margin_error (fst (check_no_action c)) = margin_error c"
  "night_target_value (fst (check_no_action c)) = night_target_value c"
  "is_day_night_active (fst (check_no_action c)) = is_day_night_active c"
  "sensor_checks (fst (check_no_action c)) = sensor_checks c"
  "is_control_active (fst (check_no_action c)) = (is_doser c \<and> is_control_active c)"
  by (simp_all add: check_no_action_def)

lemma control_add_check_fields [simp]:
  "is_control_enabled (fst (control_add_check N c)) = is_control_enabled c"
  "is_control_active (fst (control_add_check N c)) = is_control_active c"
  "is_doser (fst (control_add_check N c)) = is_doser c"
  "dose_timer (fst (control_add_check N c)) = dose_timer c"
  "wait_timer (fst (control_add_check N c)) = wait_timer c"
  "dose_percentage (fst (control_add_check N c)) = dose_percentage c"
  "dose_time (fst (control_add_check N c)) = dose_time c"
  "wait_time (fst (control_add_check N c)) = wait_time c"
  "target_value (fst (control_add_check N c)) = target_value c"
  "margin_error (fst (control_add_check N c)) = margin_error c"
  "night_target_value (fst (control_add_check N c)) = night_target_value c"
  "is_day_night_active (fst (control_add_check N c)) = is_day_night_active c"
  "snd (control_add_check N c) = (check_index c = N)"
  "check_index (fst (control_add_check N c)) = (if check_index c = N then 0 else Suc (check_index c))"
  "length (sensor_checks (fst (control_add_check N c))) = length (sensor_checks c)"
  by (simp_all add: control_add_check_def)

text \<open>\<^verbatim>\<open>control_check_sensor\<close> by cases, in the order of its tests.\<close>

lemma check_cases:
  "control_check_sensor N d c v =
     (if \<not> is_control_enabled c \<or> in_dose_cycle c then (c, 0)
      else if out_of_range c (d, v) then
        (if check_index c = N
         then ((fst (control_add_check N c))\<lparr>is_control_active := True\<rparr>,
               if control_is_under_target d c v then - 1 else 1)
         else check_no_action (fst (control_add_check N c)))
      else if check_index c > 0 then
        check_no_action (control_reset_checks N
                           (if is_doser c then c\<lparr>is_control_active := False\<rparr> else c))
      else check_no_action c)"
proof (cases "check_index c = N")
  case True
  then show ?thesis
    by (auto simp: control_check_sensor_def in_dose_cycle_def out_of_range_def Let_def
                   control_add_check_def)
next
  case False
  then show ?thesis
    by (auto simp: control_check_sensor_def in_dose_cycle_def out_of_range_def Let_def
                   control_add_check_def)
qed

lemma check_frame:
  "is_control_enabled (fst (control_check_sensor N d c v)) = is_control_enabled c"
  "is_doser (fst (control_check_sensor N d c v)) = is_doser c"
  "dose_timer (fst (control_check_sensor N d c v)) = dose_timer c"
  "wait_timer (fst (control_check_sensor N d c v)) = wait_timer c"
  "dose_percentage (fst (control_check_sensor N d c v)) = dose_percentage c"
  "dose_time (fst (control_check_sensor N d c v)) = dose_time c"
  "wait_time (fst (control_check_sensor N d c v)) = wait_time c"
  "target_value (fst (control_check_sensor N d c v)) = target_value c"
  "margin_error (fst (control_check_sensor N d c v)) = margin_error c"
  "night_target_value (fst (control_check_sensor N d c v)) = night_target_value c"
  "is_day_night_active (fst (control_check_sensor N d c v)) = is_day_night_active c"
  by (simp_all add: check_cases)

lemma band_frame:
  assumes "target_value c' = target_value c" and "margin_error c' = margin_error c"
    and "night_target_value c' = night_target_value c"
    and "is_day_night_active c' = is_day_night_active c"
  shows "control_is_under_target d c' x = control_is_under_target d c x"
    and "control_is_over_target d c' x = control_is_over_target d c x"
    and "out_of_range c' s = out_of_range c s"
  using assms
  by (simp_all add: control_is_under_target_def control_is_over_target_def out_of_range_def
                    control_get_target_value_def)

lemma check_band:
  "control_is_under_target d' (fst (control_check_sensor N d c v)) x = control_is_under_target d' c x"
  "control_is_over_target d' (fst (control_check_sensor N d c v)) x = control_is_over_target d' c x"
  "out_of_range (fst (control_check_sensor N d c v)) s = out_of_range c s"
  by (rule band_frame; simp add: check_frame)+

text \<open>
  Every call keeps the counter inside the array, so the write of
  \<^verbatim>\<open>control_add_check\<close> is always in range.
\<close>

lemma check_keeps_wf:
  assumes "control_wf N c"
  shows "control_wf N (fst (control_check_sensor N d c v))"
  using assms by (auto simp: check_cases control_wf_def)

lemma op_keeps_wf:
  assumes "control_wf N c"
  shows "control_wf N (apply_control_op enable_timer N P c op)"
proof (cases op)
  case (Check d v)
  then show ?thesis using check_keeps_wf [OF assms] by simp
qed (use assms in \<open>simp_all add: control_wf_def control_enable_def control_disable_def
       control_start_dose_timer_def control_start_wait_timer_def control_set_dose_percentage_def\<close>)

subsection \<open>One call while the counter fills, and the call that triggers\<close>

lemma fill_step:
  assumes "is_control_enabled c" and "\<not> in_dose_cycle c" and "out_of_range c (d, v)"
    and "check_index c < N"
  shows "snd (control_check_sensor N d c v) = 0"
    and "check_index (fst (control_check_sensor N d c v)) = Suc (check_index c)"
    and "\<not> in_dose_cycle (fst (control_check_sensor N d c v))"
  using assms by (auto simp: check_cases in_dose_cycle_def)

lemma trigger_step:
  assumes "is_control_enabled c" and "\<not> in_dose_cycle c" and "out_of_range c (d, v)"
    and "check_index c = N"
  shows "snd (control_check_sensor N d c v) = (if control_is_under_target d c v then - 1 else 1)"
    and "check_index (fst (control_check_sensor N d c v)) = 0"
    and "is_control_active (fst (control_check_sensor N d c v))"
  using assms by (auto simp: check_cases)

lemma check_sequence_Cons:
  "check_sequence N c (s # rs) =
     (fst (check_sequence N (fst (control_check_sensor N (fst s) c (snd s))) rs),
      snd (control_check_sensor N (fst s) c (snd s)) #
      snd (check_sequence N (fst (control_check_sensor N (fst s) c (snd s))) rs))"
  by (cases s) (simp split: prod.splits)

lemma check_sequence_append:
  "check_sequence N c (xs @ ys) =
     (fst (check_sequence N (fst (check_sequence N c xs)) ys),
      snd (check_sequence N c xs) @ snd (check_sequence N (fst (check_sequence N c xs)) ys))"
  by (induction xs arbitrary: c) (simp_all add: check_sequence_Cons del: check_sequence.simps(2))

lemma fill_sequence:
  assumes "is_control_enabled c" and "\<not> in_dose_cycle c"
    and "check_index c + length rs \<le> N" and "\<forall>s \<in> set rs. out_of_range c s"
  shows "snd (check_sequence N c rs) = replicate (length rs) 0 \<and>
         check_index (fst (check_sequence N c rs)) = check_index c + length rs \<and>
         is_control_enabled (fst (check_sequence N c rs)) \<and>
         \<not> in_dose_cycle (fst (check_sequence N c rs)) \<and>
         (\<forall>s. out_of_range (fst (check_sequence N c rs)) s = out_of_range c s) \<and>
         (\<forall>d x. control_is_under_target d (fst (check_sequence N c rs)) x =
                 control_is_under_target d c x)"
  using assms
proof (induction rs arbitrary: c)
  case Nil
  then show ?case by simp
next
  case (Cons s rs)
  obtain d v where s: "s = (d, v)" by (cases s)
  let ?c1 = "fst (control_check_sensor N d c v)"
  have oor: "out_of_range c (d, v)" using Cons.prems(4) s by simp
  have lt: "check_index c < N" using Cons.prems(3) by simp
  note st = fill_step [OF Cons.prems(1) Cons.prems(2) oor lt]
  have en: "is_control_enabled ?c1" using Cons.prems(1) by (simp add: check_frame)
  have len: "check_index ?c1 + length rs \<le> N" using st(2) Cons.prems(3) by simp
  have all: "\<forall>s \<in> set rs. out_of_range ?c1 s" using Cons.prems(4) by (simp add: check_band)
  note ih = Cons.IH [OF en st(3) len all]
  show ?case
    using ih st(1) st(2) by (simp add: s check_sequence_Cons check_band del: check_sequence.simps(2))
qed

lemma check_disabled:
  "\<not> is_control_enabled c \<Longrightarrow> control_check_sensor N d c v = (c, 0)"
  by (simp add: control_check_sensor_def)

lemma check_sequence_disabled:
  "\<not> is_control_enabled c \<Longrightarrow> check_sequence N c rs = (c, replicate (length rs) 0)"
  by (induction rs) (auto simp: check_disabled)

lemmas example_defs =
  water_temp_control_def ph_control_def ph_control_dosing_def idle_timer_def
  init_doser_control_def control_start_dose_timer_def arm_def control_get_dose_time_def

lemmas band_defs =
  out_of_range_def control_is_under_target_def control_is_over_target_def
  control_get_target_value_def in_dose_cycle_def


subsection \<open>Debouncing\<close>

text \<open>
  Claim C1, as the code has it. \<^verbatim>\<open>control_add_check\<close> compares the counter with
  \<open>NUM_CHECKS\<close> before it counts the reading, so the counter first has to reach
  \<open>NUM_CHECKS\<close>: on an enabled control with a zero counter that is not in a dose or wait
  cycle, \<open>NUM_CHECKS + 1\<close> consecutive calls with the same out-of-range reading return
  \<open>0\<close> on the first \<open>NUM_CHECKS\<close> calls and the direction on the last one (\<open>1\<close> for a
  reading over the band, \<open>-1\<close> for one under it); at that call the counter is back at
  \<open>0\<close> and the active flag is set.
\<close>

theorem debounce_same_reading:
  assumes "is_control_enabled c" and "\<not> in_dose_cycle c" and "check_index c = 0"
    and "out_of_range c (is_day, v)"
  shows "snd (check_sequence N c (replicate (Suc N) (is_day, v))) =
           replicate N 0 @ [if control_is_under_target is_day c v then - 1 else 1] \<and>
         check_index (fst (check_sequence N c (replicate (Suc N) (is_day, v)))) = 0 \<and>
         is_control_active (fst (check_sequence N c (replicate (Suc N) (is_day, v))))"
proof -
  let ?rs = "replicate N (is_day, v)"
  let ?c1 = "fst (check_sequence N c ?rs)"
  have len: "check_index c + length ?rs \<le> N" using assms(3) by simp
  have all: "\<forall>s \<in> set ?rs. out_of_range c s" using assms(4) by simp
  note fill = fill_sequence [OF assms(1) assms(2) len all]
  have full: "check_index ?c1 = N" using fill assms(3) by simp
  have oor: "out_of_range ?c1 (is_day, v)" using fill assms(4) by simp
  have en: "is_control_enabled ?c1" and free: "\<not> in_dose_cycle ?c1" using fill by simp_all
  note trig = trigger_step [OF en free oor full]
  have split: "replicate (Suc N) (is_day, v) = ?rs @ [(is_day, v)]"
    by (simp add: replicate_append_same)
  show ?thesis
    unfolding split check_sequence_append
    using fill trig by (simp add: check_sequence_Cons del: check_sequence.simps(2))
qed

text \<open>
  The water temperature control, target 6 and margin 1, with \<open>NUM_CHECKS = 5\<close> and six
  readings of 8: the sixth call returns \<open>1\<close>.
\<close>

theorem debounce_same_reading_witness:
  "is_control_enabled water_temp_control \<and> \<not> in_dose_cycle water_temp_control \<and>
   check_index water_temp_control = 0 \<and> out_of_range water_temp_control (True, 8) \<and>
   snd (check_sequence 5 water_temp_control
          [(True, 8), (True, 8), (True, 8), (True, 8), (True, 8), (True, 8)]) =
     [0, 0, 0, 0, 0, 1]"
proof -
  have h1: "is_control_enabled water_temp_control"
    and h2: "\<not> in_dose_cycle water_temp_control"
    and h3: "check_index water_temp_control = 0"
    and h4: "out_of_range water_temp_control (True, 8)"
    and h5: "\<not> control_is_under_target True water_temp_control 8"
    by (simp_all add: example_defs band_defs)
  have six: "replicate (Suc 5) (True, 8::real) =
             [(True, 8), (True, 8), (True, 8), (True, 8), (True, 8), (True, 8)]"
    by (simp add: numeral_eq_Suc)
  have five: "replicate 5 (0::int) = [0, 0, 0, 0, 0]"
    by (simp add: numeral_eq_Suc)
  show ?thesis
    using debounce_same_reading [OF h1 h2 h3 h4, of 5] h1 h2 h3 h4 h5
    unfolding six five by simp
qed

text \<open>
  Claim C1 as stated fails: after five readings of 8 the water temperature control has
  returned \<open>0\<close> five times, the fifth call included; the counter is at 5, not back at 0,
  and the active flag is not set.
\<close>

theorem fifth_call_does_not_trigger:
  "snd (check_sequence 5 water_temp_control
          [(True, 8), (True, 8), (True, 8), (True, 8), (True, 8)]) = [0, 0, 0, 0, 0] \<and>
   check_index (fst (check_sequence 5 water_temp_control
          [(True, 8), (True, 8), (True, 8), (True, 8), (True, 8)])) = 5 \<and>
   \<not> is_control_active (fst (check_sequence 5 water_temp_control
          [(True, 8), (True, 8), (True, 8), (True, 8), (True, 8)]))"
  by (simp add: check_cases band_defs example_defs control_add_check_def check_no_action_def)

text \<open>
  Claim C6. Only "in range or not" is counted. From a counter at \<open>k\<close>, any
  \<open>NUM_CHECKS - k\<close> readings outside the band, under or over it in any order and under
  any day/night setting, all return \<open>0\<close> and bring the counter to \<open>NUM_CHECKS\<close>: a change
  of direction does not reset it. The next reading outside the band triggers, and the
  value returned depends on that reading alone: \<open>-1\<close> if it is under the band, \<open>1\<close>
  otherwise.
\<close>

theorem debounce_ignores_direction:
  assumes "is_control_enabled c" and "\<not> in_dose_cycle c"
    and "check_index c + length rs = N"
    and "\<forall>s \<in> set rs. out_of_range c s" and "out_of_range c (is_day, v)"
  shows "snd (check_sequence N c rs) = replicate (length rs) 0 \<and>
         check_index (fst (check_sequence N c rs)) = N \<and>
         snd (check_sequence N c (rs @ [(is_day, v)])) =
           replicate (length rs) 0 @ [if control_is_under_target is_day c v then - 1 else 1] \<and>
         check_index (fst (check_sequence N c (rs @ [(is_day, v)]))) = 0 \<and>
         is_control_active (fst (check_sequence N c (rs @ [(is_day, v)])))"
proof -
  let ?c1 = "fst (check_sequence N c rs)"
  have len: "check_index c + length rs \<le> N" using assms(3) by simp
  note fill = fill_sequence [OF assms(1) assms(2) len assms(4)]
  have full: "check_index ?c1 = N" using fill assms(3) by simp
  have oor: "out_of_range ?c1 (is_day, v)" using fill assms(5) by simp
  have en: "is_control_enabled ?c1" and free: "\<not> in_dose_cycle ?c1" using fill by simp_all
  note trig = trigger_step [OF en free oor full]
  have quiet: "snd (check_sequence N c rs) = replicate (length rs) 0"
    and same: "control_is_under_target is_day ?c1 v = control_is_under_target is_day c v"
    using fill by simp_all
  show ?thesis
    unfolding check_sequence_append
    using quiet same full trig by (simp add: check_sequence_Cons del: check_sequence.simps(2))
qed

text \<open>
  The pH control with readings 8, 3, 8, 3, 8 and then 3: three of the six are over the
  band, yet the call returns \<open>-1\<close>, the direction of the last one.
\<close>

theorem debounce_ignores_direction_witness:
  "is_control_enabled ph_control \<and> \<not> in_dose_cycle ph_control \<and>
   check_index ph_control + length [(True, 8), (True, 3), (True, 8), (True, 3), (True, 8::real)] = 5 \<and>
   out_of_range ph_control (True, 8) \<and> out_of_range ph_control (True, 3) \<and>
   snd (check_sequence 5 ph_control
          ([(True, 8), (True, 3), (True, 8), (True, 3), (True, 8)] @ [(True, 3)])) =
     [0, 0, 0, 0, 0, - 1]"
proof -
  let ?rs = "[(True, 8), (True, 3), (True, 8), (True, 3), (True, 8::real)]"
  have h1: "is_control_enabled ph_control" and h2: "\<not> in_dose_cycle ph_control"
    and h3: "check_index ph_control + length ?rs = 5"
    and h4: "\<forall>s \<in> set ?rs. out_of_range ph_control s"
    and h5: "out_of_range ph_control (True, 3)"
    and h6: "control_is_under_target True ph_control 3"
    by (simp_all add: example_defs band_defs)
  show ?thesis
    using debounce_ignores_direction [OF h1 h2 h3 h4 h5] h1 h2 h3 h4 h5 h6 by simp
qed


subsection \<open>The active flag of a control that is not a doser\<close>

text \<open>
  Claim C2, as the code has it. The triggering branch sets the flag and returns at once;
  the statement that clears the flag of a non-doser is reached only by the calls that
  return \<open>0\<close>. So after a call on an enabled non-doser the active flag is set exactly
  when the call returned a direction.
\<close>

theorem non_doser_active_iff_triggered:
  assumes "\<not> is_doser c" and "is_control_enabled c"
  shows "is_control_active (fst (control_check_sensor N is_day c v)) \<longleftrightarrow>
         snd (control_check_sensor N is_day c v) \<noteq> 0"
  using assms by (simp add: check_cases in_dose_cycle_def)

theorem non_doser_active_iff_triggered_witness:
  "\<not> is_doser water_temp_control \<and> is_control_enabled water_temp_control \<and>
   (is_control_active (fst (control_check_sensor 5 True water_temp_control 8)) \<longleftrightarrow>
    snd (control_check_sensor 5 True water_temp_control 8) \<noteq> 0)"
proof -
  have h1: "\<not> is_doser water_temp_control" and h2: "is_control_enabled water_temp_control"
    by (simp_all add: example_defs)
  show ?thesis
    using non_doser_active_iff_triggered [OF h1 h2, of 5 True 8] h1 h2 by simp
qed

text \<open>
  Claim C2 as stated fails: the water temperature control is not a doser, the sixth
  reading of 8 returns \<open>1\<close>, and the active flag is set when that call has returned.
\<close>

theorem non_doser_active_after_trigger:
  "\<not> is_doser water_temp_control \<and>
   snd (check_sequence 5 water_temp_control
          [(True, 8), (True, 8), (True, 8), (True, 8), (True, 8), (True, 8)]) =
     [0, 0, 0, 0, 0, 1] \<and>
   is_control_active (fst (check_sequence 5 water_temp_control
          [(True, 8), (True, 8), (True, 8), (True, 8), (True, 8), (True, 8)]))"
  by (simp add: check_cases band_defs example_defs control_add_check_def check_no_action_def)


subsection \<open>Calls that change nothing\<close>

text \<open>
  Claim C3. On an enabled doser that is active, while the dose timer or the wait timer is
  active, a call returns \<open>0\<close> whatever the reading and the day/night setting, and the
  control it leaves is the control it found: counter, flags, array and timers.
\<close>

theorem dose_cycle_ignores_samples:
  assumes "is_control_enabled c" and "is_doser c" and "is_control_active c"
    and "active (dose_timer c) \<or> active (wait_timer c)"
  shows "control_check_sensor N is_day c v = (c, 0)"
  using assms by (simp add: control_check_sensor_def)

theorem dose_cycle_ignores_samples_witness:
  "is_control_enabled ph_control_dosing \<and> is_doser ph_control_dosing \<and>
   is_control_active ph_control_dosing \<and> active (dose_timer ph_control_dosing) \<and>
   control_check_sensor 5 True ph_control_dosing 8 = (ph_control_dosing, 0)"
proof -
  have h1: "is_control_enabled ph_control_dosing" and h2: "is_doser ph_control_dosing"
    and h3: "is_control_active ph_control_dosing"
    and h4: "active (dose_timer ph_control_dosing)"
    by (simp_all add: example_defs)
  have h5: "active (dose_timer ph_control_dosing) \<or> active (wait_timer ph_control_dosing)"
    using h4 by simp
  show ?thesis
    using dose_cycle_ignores_samples [OF h1 h2 h3 h5, of 5 True 8] h1 h2 h3 h4 by simp
qed

text \<open>
  Claim C5. A call on a control that is not enabled returns \<open>0\<close> and leaves the control
  as it found it. \<^verbatim>\<open>control_disable\<close> leaves a control that is not enabled, disabling
  twice is disabling once, and after it every sequence of calls returns only \<open>0\<close> and
  ends in the control that \<^verbatim>\<open>control_disable\<close> left.
\<close>

theorem disabled_check_is_noop:
  "(\<not> is_control_enabled c \<longrightarrow> control_check_sensor N is_day c v = (c, 0)) \<and>
   \<not> is_control_enabled (control_disable N c) \<and>
   control_disable N (control_disable N c) = control_disable N c \<and>
   check_sequence N (control_disable N c) rs = (control_disable N c, replicate (length rs) 0)"
proof -
  have off: "\<not> is_control_enabled (control_disable N c)"
    by (simp add: control_disable_def)
  show ?thesis
    using off check_sequence_disabled [OF off]
    by (simp add: check_disabled control_disable_idem)
qed

theorem disabled_check_is_noop_witness:
  "\<not> is_control_enabled (control_disable 5 ph_control_dosing) \<and>
   control_check_sensor 5 True (control_disable 5 ph_control_dosing) 8 =
     (control_disable 5 ph_control_dosing, 0)"
  using disabled_check_is_noop [of "control_disable 5 ph_control_dosing" 5 True 8 "[]"]
  by (simp add: control_disable_def)


subsection \<open>Initialisation\<close>

text \<open>
  Claim C9, as the code has it. \<^verbatim>\<open>init_sensor_control\<close> stores its arguments, clears
  the counter and the array of checks, and sets the active flag and the doser flag to
  false. It does not touch the two timers: each is after the call what it was before.
\<close>

theorem init_keeps_timers:
  assumes "length (sensor_checks c) = NUM_CHECKS"
  shows "check_index (init_sensor_control NUM_CHECKS c n e t m nt dn) = 0 \<and>
         sensor_checks (init_sensor_control NUM_CHECKS c n e t m nt dn) =
           replicate NUM_CHECKS False \<and>
         \<not> is_control_active (init_sensor_control NUM_CHECKS c n e t m nt dn) \<and>
         \<not> is_doser (init_sensor_control NUM_CHECKS c n e t m nt dn) \<and>
         name (init_sensor_control NUM_CHECKS c n e t m nt dn) = n \<and>
         is_control_enabled (init_sensor_control NUM_CHECKS c n e t m nt dn) = e \<and>
         target_value (init_sensor_control NUM_CHECKS c n e t m nt dn) = t \<and>
         margin_error (init_sensor_control NUM_CHECKS c n e t m nt dn) = m \<and>
         night_target_value (init_sensor_control NUM_CHECKS c n e t m nt dn) = nt \<and>
         is_day_night_active (init_sensor_control NUM_CHECKS c n e t m nt dn) = dn \<and>
         dose_timer (init_sensor_control NUM_CHECKS c n e t m nt dn) = dose_timer c \<and>
         wait_timer (init_sensor_control NUM_CHECKS c n e t m nt dn) = wait_timer c"
  using assms by (simp add: init_sensor_control_def control_reset_checks_cells)

theorem init_keeps_timers_witness:
  "length (sensor_checks ph_control_dosing) = 5 \<and>
   check_index (init_sensor_control 5 ph_control_dosing ''PH'' True 6 1 6 False) = 0 \<and>
   dose_timer (init_sensor_control 5 ph_control_dosing ''PH'' True 6 1 6 False) =
     dose_timer ph_control_dosing"
proof -
  have h: "length (sensor_checks ph_control_dosing) = 5"
    by (simp add: example_defs)
  show ?thesis
    using init_keeps_timers [OF h, of "''PH''" True 6 1 6 False] h by simp
qed

text \<open>
  Claim C9 as stated fails: initialising the pH control in the middle of a dose leaves
  its dose timer armed.
\<close>

theorem init_leaves_dose_timer_armed:
  "active (dose_timer (init_sensor_control 5 ph_control_dosing ''PH'' True 6 1 6 False))"
  by (simp add: init_sensor_control_def example_defs)


subsection \<open>Dose and wait durations\<close>

text \<open>
  Claim C4, as the code has it. \<^verbatim>\<open>control_start_wait_timer\<close> hands \<^verbatim>\<open>enable_timer\<close>
  the difference \<open>wait_time - NUM_CHECKS * (PERIOD div 1000)\<close> as it is, whatever the
  driver. That is \<open>max 0\<close> of the difference when the wait time is at least the debounce
  time; when it is shorter, the negative difference is passed on, and a timer that
  stores the duration it is given (\<open>arm\<close>) is armed with a negative duration.
\<close>

theorem start_wait_not_clamped:
  "wait_timer (control_start_wait_timer enable_timer dev NUM_CHECKS PERIOD c) =
     enable_timer dev (wait_timer c) (wait_time c - real NUM_CHECKS * real (PERIOD div 1000)) \<and>
   (real NUM_CHECKS * real (PERIOD div 1000) \<le> wait_time c \<longrightarrow>
      wait_timer (control_start_wait_timer enable_timer dev NUM_CHECKS PERIOD c) =
        enable_timer dev (wait_timer c)
          (max 0 (wait_time c - real NUM_CHECKS * real (PERIOD div 1000)))) \<and>
   (wait_time c < real NUM_CHECKS * real (PERIOD div 1000) \<longrightarrow>
      duration (wait_timer (control_start_wait_timer arm now NUM_CHECKS PERIOD c)) < 0)"
  by (simp add: control_start_wait_timer_def arm_def max_def)

theorem start_wait_not_clamped_witness:
  "real 5 * real (2000 div 1000) \<le> wait_time ph_control \<and>
   wait_timer (control_start_wait_timer arm 0 5 2000 ph_control) =
     \<lparr>active = True, start_time = 0, duration = 20\<rparr> \<and>
   wait_time ph_control < real 5 * real (10000 div 1000) \<and>
   duration (wait_timer (control_start_wait_timer arm 0 5 10000 ph_control)) < 0"
  using start_wait_not_clamped [of arm 0 5 2000 ph_control 0]
        start_wait_not_clamped [of arm 0 5 10000 ph_control 0]
  by (simp add: example_defs)

text \<open>
  Claim C4 as stated fails: with a wait time of 30 s, \<open>NUM_CHECKS = 5\<close> and a period of
  10000 ms the wait timer is armed for \<open>-20\<close>, not for \<open>max 0 (-20) = 0\<close>.
\<close>

theorem start_wait_negative:
  "duration (wait_timer (control_start_wait_timer arm 0 5 10000 ph_control)) = - 20 \<and>
   duration (wait_timer (control_start_wait_timer arm 0 5 10000 ph_control)) \<noteq>
     max 0 (wait_time ph_control - real 5 * real (10000 div 1000))"
  by (simp add: control_start_wait_timer_def example_defs)

lemma op_keeps_dose:
  "\<not> is_set_dose_percentage op \<Longrightarrow>
     dose_percentage (apply_control_op enable_timer N P c op) = dose_percentage c \<and>
     dose_time (apply_control_op enable_timer N P c op) = dose_time c"
  by (cases op)
     (simp_all add: control_enable_def control_disable_def check_frame
                    control_start_dose_timer_def control_start_wait_timer_def)

lemma ops_keep_dose:
  "\<forall>op \<in> set ops. \<not> is_set_dose_percentage op \<Longrightarrow>
     dose_percentage (foldl (apply_control_op enable_timer N P) c ops) = dose_percentage c \<and>
     dose_time (foldl (apply_control_op enable_timer N P) c ops) = dose_time c"
  by (induction ops arbitrary: c) (simp_all add: op_keeps_dose)

text \<open>
  Claim C10. \<^verbatim>\<open>init_doser_control\<close> sets the dose percentage to 1. After it and any
  sequence of calls on the control without \<^verbatim>\<open>control_set_dose_percentage\<close>,
  \<^verbatim>\<open>control_get_dose_time\<close> returns the dose time given to \<^verbatim>\<open>init_doser_control\<close>, and
  \<^verbatim>\<open>control_start_dose_timer\<close> hands \<^verbatim>\<open>enable_timer\<close> that full dose time.
\<close>

theorem default_dose_is_full:
  assumes "\<forall>op \<in> set ops. \<not> is_set_dose_percentage op"
  shows "dose_percentage (init_doser_control c dt wt) = 1 \<and>
         control_get_dose_time
           (foldl (apply_control_op enable_timer N P) (init_doser_control c dt wt) ops) = dt \<and>
         dose_timer (control_start_dose_timer enable_timer dev
                       (foldl (apply_control_op enable_timer N P) (init_doser_control c dt wt) ops)) =
           enable_timer dev
             (dose_timer (foldl (apply_control_op enable_timer N P) (init_doser_control c dt wt) ops))
             dt"
proof -
  have "dose_percentage (init_doser_control c dt wt) = 1"
    and "dose_time (init_doser_control c dt wt) = dt"
    by (simp_all add: init_doser_control_def)
  with ops_keep_dose [OF assms, of enable_timer N P "init_doser_control c dt wt"]
  show ?thesis
    by (simp add: control_get_dose_time_def control_start_dose_timer_def)
qed

theorem default_dose_is_full_witness:
  "\<not> is_set_dose_percentage (Check True 8) \<and> \<not> is_set_dose_percentage Disable \<and>
   \<not> is_set_dose_percentage Enable \<and> \<not> is_set_dose_percentage (StartWait (7::real)) \<and>
   control_get_dose_time
     (foldl (apply_control_op arm 5 10000) (init_doser_control water_temp_control 10 30)
        [Check True 8, Disable, Enable, StartWait 7]) = 10 \<and>
   duration (dose_timer (control_start_dose_timer arm 9
     (foldl (apply_control_op arm 5 10000) (init_doser_control water_temp_control 10 30)
        [Check True 8, Disable, Enable, StartWait 7]))) = 10"
proof -
  have h: "\<forall>op \<in> set [Check True 8, Disable, Enable, StartWait (7::real)].
             \<not> is_set_dose_percentage op"
    by simp
  show ?thesis
    using default_dose_is_full [OF h, of water_temp_control 10 30 arm 5 10000 9] h
    by (simp add: arm_def)
qed


section \<open>Properties of the grow manager\<close>

lemma emit_fields [simp]:
  "trace (emit es s) = trace s @ es"
  "is_grow_active (emit es s) = is_grow_active s"
  "is_settings_received (emit es s) = is_settings_received s"
  "is_ph_activated (emit es s) = is_ph_activated s"
  "is_ec_activated (emit es s) = is_ec_activated s"
  by (simp_all add: emit_def)

text \<open>
  Claim C7. Without received settings \<^verbatim>\<open>start_grow_cycle\<close> returns the state it was
  given: \<^verbatim>\<open>is_grow_active\<close> is unchanged and no call is made, so nothing is written to
  the NVS store and no task is resumed.
\<close>

theorem start_without_settings_is_noop:
  assumes "\<not> is_settings_received s"
  shows "start_grow_cycle s = s \<and>
         is_grow_active (start_grow_cycle s) = is_grow_active s \<and>
         new_events s (start_grow_cycle s) = []"
  using assms by (simp add: start_grow_cycle_def new_events_def)

theorem start_without_settings_is_noop_witness:
  "\<not> is_settings_received fresh_manager \<and> start_grow_cycle fresh_manager = fresh_manager"
proof -
  have h: "\<not> is_settings_received fresh_manager" by (simp add: fresh_manager_def)
  show ?thesis using start_without_settings_is_noop [OF h] h by simp
qed

lemma stop_trace:
  "trace (stop_grow_cycle s) =
     trace s @ stop_calls @
     (if is_ph_activated s then [HibernatePh] else []) @
     (if is_ec_activated s then [HibernateEc] else [])"
  by (simp add: stop_grow_cycle_def push_grow_status_def suspend_tasks_def Let_def stop_calls_def)

lemma stop_new_events:
  "new_events s (stop_grow_cycle s) =
     stop_calls @
     (if is_ph_activated s then [HibernatePh] else []) @
     (if is_ec_activated s then [HibernateEc] else [])"
  by (simp add: new_events_def stop_trace)

lemma stop_flags:
  "\<not> is_grow_active (stop_grow_cycle s)"
  "\<not> is_ph_activated (stop_grow_cycle s)"
  "\<not> is_ec_activated (stop_grow_cycle s)"
  "is_settings_received (stop_grow_cycle s) = is_settings_received s"
  by (simp_all add: stop_grow_cycle_def push_grow_status_def suspend_tasks_def Let_def)

lemma ordered_append:
  assumes pre: "\<forall>e \<in> set pre. \<not> is_hibernate e" and post: "\<forall>e \<in> set post. \<not> is_suspend e"
    and i: "i < length (pre @ post)" and j: "j < length (pre @ post)"
    and si: "is_suspend ((pre @ post) ! i)" and hj: "is_hibernate ((pre @ post) ! j)"
  shows "i < j"
proof -
  have "i < length pre"
  proof (rule ccontr)
    assume "\<not> i < length pre"
    then have "(pre @ post) ! i = post ! (i - length pre)" and "i - length pre < length post"
      using i by (simp_all add: nth_append)
    then show False using post si by (metis nth_mem)
  qed
  moreover have "length pre \<le> j"
  proof (rule ccontr)
    assume "\<not> length pre \<le> j"
    then have "(pre @ post) ! j = pre ! j" and "j < length pre"
      by (simp_all add: nth_append)
    then show False using pre hj by (metis nth_mem)
  qed
  ultimately show ?thesis by simp
qed

text \<open>
  Claim C8. Every call of \<^verbatim>\<open>stop_grow_cycle\<close> clears \<^verbatim>\<open>is_grow_active\<close> and first writes
  the value 0 under \<^verbatim>\<open>GROW_ACTIVE_KEY\<close> and commits it. Among the calls it makes, every
  one of the seven tasks is suspended, and every suspension comes before every
  hibernation. The pH probe is hibernated exactly when its activated flag was set, and
  so is the EC probe; both flags are clear afterwards.
\<close>

theorem stop_suspends_before_hibernate:
  "\<not> is_grow_active (stop_grow_cycle s) \<and>
   take 3 (new_events s (stop_grow_cycle s)) =
     [NvsGetHandle, NvsAddUint8 GROW_ACTIVE_KEY 0, NvsCommitData] \<and>
   trace (stop_grow_cycle s) = trace s @ new_events s (stop_grow_cycle s) \<and>
   (\<forall>t. TaskSuspend t \<in> set (new_events s (stop_grow_cycle s))) \<and>
   (\<forall>i j. i < length (new_events s (stop_grow_cycle s)) \<and>
          j < length (new_events s (stop_grow_cycle s)) \<and>
          is_suspend (new_events s (stop_grow_cycle s) ! i) \<and>
          is_hibernate (new_events s (stop_grow_cycle s) ! j) \<longrightarrow> i < j) \<and>
   (HibernatePh \<in> set (new_events s (stop_grow_cycle s)) \<longleftrightarrow> is_ph_activated s) \<and>
   (HibernateEc \<in> set (new_events s (stop_grow_cycle s)) \<longleftrightarrow> is_ec_activated s) \<and>
   \<not> is_ph_activated (stop_grow_cycle s) \<and> \<not> is_ec_activated (stop_grow_cycle s)"
proof -
  let ?es = "new_events s (stop_grow_cycle s)"
  let ?post = "(if is_ph_activated s then [HibernatePh] else []) @
               (if is_ec_activated s then [HibernateEc] else [])"
  have es: "?es = stop_calls @ ?post" by (rule stop_new_events)
  have a: "take 3 ?es = [NvsGetHandle, NvsAddUint8 GROW_ACTIVE_KEY 0, NvsCommitData]"
    unfolding es by (simp add: stop_calls_def)
  have b: "trace (stop_grow_cycle s) = trace s @ ?es"
    unfolding es by (simp add: stop_trace)
  have c: "TaskSuspend t \<in> set ?es" for t
    unfolding es by (cases t) (simp_all add: stop_calls_def)
  have pre: "\<forall>e \<in> set stop_calls. \<not> is_hibernate e" by (simp add: stop_calls_def)
  have post: "\<forall>e \<in> set ?post. \<not> is_suspend e" by auto
  have d: "i < j" if "i < length ?es" "j < length ?es" "is_suspend (?es ! i)" "is_hibernate (?es ! j)"
    for i j
    using that unfolding es by (rule ordered_append [OF pre post])
  have e: "HibernatePh \<in> set ?es \<longleftrightarrow> is_ph_activated s"
    and f: "HibernateEc \<in> set ?es \<longleftrightarrow> is_ec_activated s"
    unfolding es by (simp_all add: stop_calls_def)
  show ?thesis
    using a b c d e f stop_flags [of s] by blast
qed

text \<open>
  A running manager with the pH probe awake: the last suspension is the tenth call, the
  hibernation of the probe the twelfth.
\<close>

theorem stop_suspends_before_hibernate_witness:
  "new_events running_manager (stop_grow_cycle running_manager) ! 9 = TaskSuspend sync_task \<and>
   new_events running_manager (stop_grow_cycle running_manager) ! 11 = HibernatePh \<and>
   (9::nat) < 11 \<and> \<not> is_ph_activated (stop_grow_cycle running_manager)"
proof -
  let ?es = "new_events running_manager (stop_grow_cycle running_manager)"
  have es: "?es = stop_calls @ [HibernatePh]"
    by (simp add: stop_new_events running_manager_def)
  have h: "9 < length ?es" "11 < length ?es" "is_suspend (?es ! 9)" "is_hibernate (?es ! 11)"
    and v: "?es ! 9 = TaskSuspend sync_task" "?es ! 11 = HibernatePh"
    unfolding es by (simp_all add: stop_calls_def)
  from stop_suspends_before_hibernate [of running_manager]
  have "9 < length ?es \<and> 11 < length ?es \<and> is_suspend (?es ! 9) \<and> is_hibernate (?es ! 11)
        \<longrightarrow> (9::nat) < 11"
    and "\<not> is_ph_activated (stop_grow_cycle running_manager)"
    by blast+
  with h v show ?thesis by simp
qed

end
